theory Spec2Isabelle
  imports Complex_Main "HOL-Library.Sublist"
begin

section \<open>The scoring-expression tokenizer of rDock (RbtStringTokenIter.cxx)\<close>

text \<open>
  The theory embeds \<^verbatim>\<open>src/lib/RbtStringTokenIter.cxx\<close>: the constructor, \<^verbatim>\<open>Next\<close>,
  \<^verbatim>\<open>Current\<close> and \<^verbatim>\<open>translate\<close>. A C++ exception is the left summand of a sum type, the
  objects reached through the two shared pointers \<^verbatim>\<open>filep\<close> and \<^verbatim>\<open>contextp\<close> are fields
  of the iterator's state, and every member function returns the state it leaves behind.
\<close>

subsection \<open>Values, commands, tokens and errors\<close>

text \<open>
  \<^verbatim>\<open>RbtDouble\<close> is the C \<^verbatim>\<open>double\<close>. The tokenizer never computes with a value: it
  stores what \<^verbatim>\<open>strtod\<close> returns. \<open>Num q\<close> stands for the double that a correctly
  rounding conversion returns for a literal whose exact value is the rational \<open>q\<close>
  (the rounding to 53 bits is not modelled, and \<open>-0.0\<close> is \<open>Num 0\<close>); the two
  infinities and the NaN are values of their own.
\<close>

datatype RbtDouble = Num rat | PlusInf | MinusInf | NaN

text \<open>
  Modelled from the spec: the enumeration \<^verbatim>\<open>RbtCommands\<close> (RbtCommands.h is not among
  the sources). Section 3 of the spec gives the closed vocabulary ADD, SUB, MUL, DIV, IF,
  LOG, EXP, AND; \<^verbatim>\<open>translate\<close> names exactly these eight enumerators.
\<close>

datatype RbtCommands = ADD | SUB | MUL | DIV | IF | LOG | EXP | AND

text \<open>
  Modelled from the spec: the class \<^verbatim>\<open>RbtToken\<close> (RbtToken.h is not among the
  sources). Section 3: a token is a variant, \<open>Operator(op)\<close> or
  \<open>VariableRef(handle into Context)\<close>. The handle is the name of the Context entry: names
  are unique within a Context, so a name identifies one slot.
\<close>

datatype RbtToken = Operator RbtCommands | VariableRef string

text \<open>
  \<^verbatim>\<open>RbtError(_WHERE_, message)\<close>: the exception that \<^verbatim>\<open>translate\<close> throws. The
  source-location tag \<^verbatim>\<open>_WHERE_\<close> is left out; the message is kept.
\<close>

datatype RbtError = RbtError string

text \<open>The two failures of the classifier, under the names the specification gives them.\<close>

definition EmptyToken :: RbtError where
  "EmptyToken = RbtError ''Missing token, can't translate the expression''"

definition UnrecognizedToken :: "string \<Rightarrow> RbtError" where
  "UnrecognizedToken s = RbtError (''Can't read '' @ s)"

subsection \<open>The Context\<close>

text \<open>
  Modelled from the spec: the class \<^verbatim>\<open>RbtContext\<close> with its member functions
  \<^verbatim>\<open>Assign\<close> and \<^verbatim>\<open>GetVble\<close> (RbtContext.h and RbtContext.cxx are not among the
  sources). Section 3: a Context is a mapping from a name to a named mutable numeric
  cell, names are unique, and assigning to an existing name overwrites its value in
  place. Section 4.3: \<open>Assign(name, value)\<close> creates or overwrites the entry;
  \<open>Lookup(name)\<close> creates the entry with value 0.0 if it is absent and otherwise
  returns the existing entry; no entry is ever removed.
\<close>

type_synonym RbtContext = "string \<rightharpoonup> RbtDouble"

definition Assign :: "RbtContext \<Rightarrow> string \<Rightarrow> RbtDouble \<Rightarrow> RbtContext" where
  "Assign ctx name val = ctx(name \<mapsto> val)"

text \<open>
  Modelled from the spec: \<^verbatim>\<open>GetVble\<close>, the lookup of section 4.3. It returns the
  handle of the entry and the Context, which has a fresh entry of value 0.0 when the name
  was absent.
\<close>

definition GetVble :: "RbtContext \<Rightarrow> string \<Rightarrow> string \<times> RbtContext" where
  "GetVble ctx name =
     (case ctx name of
        Some v \<Rightarrow> (name, ctx)
      | None \<Rightarrow> (name, ctx(name \<mapsto> Num 0)))"

text \<open>\<open>Get(handle)\<close> of section 4.3: the value a token's handle resolves to.\<close>

definition Get :: "RbtContext \<Rightarrow> RbtToken \<Rightarrow> RbtDouble option" where
  "Get ctx t = (case t of VariableRef h \<Rightarrow> ctx h | Operator c \<Rightarrow> None)"

subsection \<open>The library functions that the tokenizer calls\<close>

text \<open>
  \<^verbatim>\<open>std::string::find\<close>: the position of the first occurrence of the pattern, or
  \<^verbatim>\<open>npos\<close>.
\<close>

definition npos :: "nat option" where
  "npos = None"

fun string_find :: "string \<Rightarrow> string \<Rightarrow> nat option" where
  "string_find [] pat = (if pat = [] then Some 0 else None)"
| "string_find (c # cs) pat =
     (if prefix pat (c # cs) then Some 0 else map_option Suc (string_find cs pat))"

text \<open>
  \<^verbatim>\<open>c_str()\<close>: the characters of the string as C functions see them, up to the first
  NUL character.
\<close>

definition c_str :: "string \<Rightarrow> string" where
  "c_str s = takeWhile (\<lambda>c. c \<noteq> CHR 0x00) s"

text \<open>
  \<^verbatim>\<open>*p\<close> for a pointer into a C string, the pointer being given by the characters
  from it to the end of the string: at the end it reads the terminating NUL.
\<close>

definition deref :: "string \<Rightarrow> char" where
  "deref p = (case p of [] \<Rightarrow> CHR 0x00 | c # cs \<Rightarrow> c)"

text \<open>Character classes of the C locale.\<close>

definition isspace :: "char \<Rightarrow> bool" where
  "isspace c \<longleftrightarrow>
     c = CHR '' '' \<or> c = CHR 0x09 \<or> c = CHR 0x0A \<or> c = CHR 0x0B \<or> c = CHR 0x0C \<or> c = CHR 0x0D"

definition isdigit :: "char \<Rightarrow> bool" where
  "isdigit c \<longleftrightarrow> (48::nat) \<le> of_char c \<and> of_char c \<le> (57::nat)"

definition isxdigit :: "char \<Rightarrow> bool" where
  "isxdigit c \<longleftrightarrow>
     isdigit c \<or> (65::nat) \<le> of_char c \<and> of_char c \<le> (70::nat)
       \<or> (97::nat) \<le> of_char c \<and> of_char c \<le> (102::nat)"

definition isalpha :: "char \<Rightarrow> bool" where
  "isalpha c \<longleftrightarrow>
     (65::nat) \<le> of_char c \<and> of_char c \<le> (90::nat)
       \<or> (97::nat) \<le> of_char c \<and> of_char c \<le> (122::nat)"

text \<open>The code of a character after \<^verbatim>\<open>tolower\<close>.\<close>

definition tolower_code :: "char \<Rightarrow> nat" where
  "tolower_code c =
     (if (65::nat) \<le> of_char c \<and> of_char c \<le> (90::nat) then of_char c + 32 else of_char c)"

text \<open>The value of a decimal or hexadecimal digit.\<close>

definition digit_value :: "char \<Rightarrow> nat" where
  "digit_value c =
     (if isdigit c then of_char c - 48
      else if (97::nat) \<le> of_char c then of_char c - 87
      else of_char c - 55)"

definition digits_value :: "nat \<Rightarrow> string \<Rightarrow> nat" where
  "digits_value base ds = foldl (\<lambda>a c. a * base + digit_value c) 0 ds"

text \<open>
  A prefix matched without regard to case (the pattern is given in lower case): the rest
  of the input after the prefix, if it is there.
\<close>

fun match_nocase :: "string \<Rightarrow> string \<Rightarrow> string option" where
  "match_nocase [] s = Some s"
| "match_nocase (p # ps) [] = None"
| "match_nocase (p # ps) (c # cs) =
     (if tolower_code c = of_char p then match_nocase ps cs else None)"

definition pow_int :: "rat \<Rightarrow> int \<Rightarrow> rat" where
  "pow_int b e = (if 0 \<le> e then b ^ nat e else 1 / b ^ nat (- e))"

text \<open>
  The optional exponent part: a marker character, an optional sign and a non-empty digit
  sequence. Without digits nothing is consumed and the exponent is 0.
\<close>

definition parse_exponent :: "char \<Rightarrow> char \<Rightarrow> string \<Rightarrow> int \<times> string" where
  "parse_exponent lo up r =
     (case r of
        [] \<Rightarrow> (0, r)
      | c # cs \<Rightarrow>
          if c = lo \<or> c = up then
            (let (neg, d) =
               (case cs of
                  [] \<Rightarrow> (False, cs)
                | x # xs \<Rightarrow>
                    if x = CHR ''-'' then (True, xs)
                    else if x = CHR ''+'' then (False, xs)
                    else (False, cs))
             in if takeWhile isdigit d = [] then (0, r)
                else (let n = int (digits_value 10 (takeWhile isdigit d))
                      in (if neg then - n else n, dropWhile isdigit d)))
          else (0, r))"

text \<open>
  The digits of a mantissa with an optional radix character \<^verbatim>\<open>.\<close>: the digits before
  it, the digits after it, and the rest of the input.
\<close>

definition parse_mantissa :: "(char \<Rightarrow> bool) \<Rightarrow> string \<Rightarrow> string \<times> string \<times> string" where
  "parse_mantissa dig s =
     (let ip = takeWhile dig s; r1 = dropWhile dig s
      in case r1 of
           [] \<Rightarrow> (ip, [], r1)
         | c # cs \<Rightarrow>
             if c = CHR ''.'' then (ip, takeWhile dig cs, dropWhile dig cs)
             else (ip, [], r1))"

text \<open>A decimal floating-point number: its exact value and the rest of the input.\<close>

definition parse_decimal :: "string \<Rightarrow> (rat \<times> string) option" where
  "parse_decimal s =
     (case parse_mantissa isdigit s of
        (ip, fp, r2) \<Rightarrow>
          if ip = [] \<and> fp = [] then None
          else (case parse_exponent (CHR ''e'') (CHR ''E'') r2 of
                  (e, r3) \<Rightarrow>
                    Some (of_nat (digits_value 10 (ip @ fp)) * pow_int 10 (e - int (length fp)),
                          r3)))"

text \<open>
  A hexadecimal floating-point number: \<^verbatim>\<open>0x\<close> or \<^verbatim>\<open>0X\<close>, hexadecimal digits with an
  optional radix character, and an optional binary exponent.
\<close>

definition parse_hexadecimal :: "string \<Rightarrow> (rat \<times> string) option" where
  "parse_hexadecimal s =
     (case s of
        z # x # r \<Rightarrow>
          if z = CHR ''0'' \<and> (x = CHR ''x'' \<or> x = CHR ''X'') then
            (case parse_mantissa isxdigit r of
               (ip, fp, r2) \<Rightarrow>
                 if ip = [] \<and> fp = [] then None
                 else (case parse_exponent (CHR ''p'') (CHR ''P'') r2 of
                         (e, r3) \<Rightarrow>
                           Some (of_nat (digits_value 16 (ip @ fp))
                                   * pow_int 2 (e - 4 * int (length fp)),
                                 r3)))
          else None
      | _ \<Rightarrow> None)"

text \<open>\<^verbatim>\<open>INF\<close> or \<^verbatim>\<open>INFINITY\<close>, in any case.\<close>

definition parse_inf :: "string \<Rightarrow> string option" where
  "parse_inf s =
     (case match_nocase ''infinity'' s of
        Some r \<Rightarrow> Some r
      | None \<Rightarrow> match_nocase ''inf'' s)"

text \<open>
  \<^verbatim>\<open>NAN\<close> in any case, and after it an optional parenthesised sequence of digits,
  letters and underscores.
\<close>

definition parse_nan :: "string \<Rightarrow> string option" where
  "parse_nan s =
     (case match_nocase ''nan'' s of
        None \<Rightarrow> None
      | Some r \<Rightarrow>
          (case r of
             [] \<Rightarrow> Some r
           | c # cs \<Rightarrow>
               if c = CHR ''('' then
                 (case dropWhile (\<lambda>x. isdigit x \<or> isalpha x \<or> x = CHR ''_'') cs of
                    [] \<Rightarrow> Some r
                  | y # ys \<Rightarrow> if y = CHR '')'' then Some ys else Some r)
               else Some r))"

text \<open>
  The range of the binary64 format, for a result of exact magnitude \<open>q\<close>, as the GNU C
  library on x86-64 reports it. From \<open>2^1024 - 2^970\<close> on the nearest double is beyond
  \<^verbatim>\<open>DBL_MAX\<close>: the conversion returns \<^verbatim>\<open>HUGE_VAL\<close> and sets \<^verbatim>\<open>errno\<close> to
  \<^verbatim>\<open>ERANGE\<close>. Underflow sets \<^verbatim>\<open>ERANGE\<close> when the result is tiny and inexact.
  Tininess is detected after rounding: a magnitude from \<open>2^-1022 - 2^-1076\<close> on rounds
  (to 53 bits, ties to even) to \<^verbatim>\<open>DBL_MIN = 2^-1022\<close> or above and is not tiny; a
  non-zero magnitude below that is tiny, and it is inexact when it is no multiple of
  \<open>2^-1074\<close>.
\<close>

definition range_check :: "bool \<Rightarrow> rat \<Rightarrow> string \<Rightarrow> RbtDouble \<times> string \<times> bool" where
  "range_check neg q rest =
     (if 2 ^ 1024 - 2 ^ 970 \<le> q then (if neg then MinusInf else PlusInf, rest, True)
      else if 0 < q \<and> q < 1 / 2 ^ 1022 - 1 / 2 ^ 1076
        then (Num (if neg then - q else q), rest, of_int \<lfloor>q * 2 ^ 1074\<rfloor> \<noteq> q * 2 ^ 1074)
      else (Num (if neg then - q else q), rest, False))"

text \<open>
  \<^verbatim>\<open>strtod(nptr, &endptr)\<close> with \<^verbatim>\<open>errno\<close> cleared before the call, after
  ISO C99 7.20.1.3 in the C locale: white space is skipped, then an optional sign, then
  the longest of an infinity, a NaN, a hexadecimal or a decimal floating-point number is
  converted. The result is the value, the characters from \<^verbatim>\<open>endptr\<close> to the
  terminating NUL, and whether \<^verbatim>\<open>errno\<close> is set afterwards. When nothing can be
  converted the value is zero and \<^verbatim>\<open>endptr\<close> is \<^verbatim>\<open>nptr\<close>.
\<close>

definition strtod :: "string \<Rightarrow> RbtDouble \<times> string \<times> bool" where
  "strtod nptr =
     (let s = dropWhile isspace nptr;
          (neg, s1) =
            (case s of
               [] \<Rightarrow> (False, s)
             | c # cs \<Rightarrow>
                 if c = CHR ''-'' then (True, cs)
                 else if c = CHR ''+'' then (False, cs)
                 else (False, s))
      in case parse_inf s1 of
           Some rest \<Rightarrow> (if neg then MinusInf else PlusInf, rest, False)
         | None \<Rightarrow>
             (case parse_nan s1 of
                Some rest \<Rightarrow> (NaN, rest, False)
              | None \<Rightarrow>
                  (case parse_hexadecimal s1 of
                     Some (q, rest) \<Rightarrow> range_check neg q rest
                   | None \<Rightarrow>
                       (case parse_decimal s1 of
                          Some (q, rest) \<Rightarrow> range_check neg q rest
                        | None \<Rightarrow> (Num 0, nptr, False)))))"

subsection \<open>The input stream\<close>

text \<open>
  The \<^verbatim>\<open>istream\<close> behind \<^verbatim>\<open>filep\<close>: the characters not yet read and the two state
  bits that reading a word can set (an in-memory stream; \<^verbatim>\<open>badbit\<close> is never set).
\<close>

record istream =
  unread :: string
  eofbit :: bool
  failbit :: bool

definition good :: "istream \<Rightarrow> bool" where
  "good ins \<longleftrightarrow> \<not> eofbit ins \<and> \<not> failbit ins"

text \<open>A fresh stream over a text, as \<^verbatim>\<open>istringstream(text)\<close> makes it.\<close>

definition istringstream :: "string \<Rightarrow> istream" where
  "istringstream txt = \<lparr>unread = txt, eofbit = False, failbit = False\<rparr>"

text \<open>
  \<^verbatim>\<open>stream >> str\<close> for a \<^verbatim>\<open>std::string\<close>. The sentry fails when the stream is not
  good, or when skipping the leading white space reaches the end; then \<^verbatim>\<open>failbit\<close> is
  set and the string is left as it was. Otherwise the string is erased and takes the
  characters up to the next white space or the end of the stream.
\<close>

definition read_word :: "istream \<Rightarrow> string \<Rightarrow> istream \<times> string" where
  "read_word ins str =
     (if \<not> good ins then (ins\<lparr>failbit := True\<rparr>, str)
      else (let rest = dropWhile isspace (unread ins)
            in if rest = [] then (ins\<lparr>unread := [], eofbit := True, failbit := True\<rparr>, str)
               else (let w = takeWhile (\<lambda>c. \<not> isspace c) rest;
                         rest' = dropWhile (\<lambda>c. \<not> isspace c) rest
                     in (ins\<lparr>unread := rest', eofbit := (rest' = [])\<rparr>, w))))"

subsection \<open>RbtStringTokenIter\<close>

text \<open>
  The data members of the class. \<^verbatim>\<open>current\<close> is a null \<^verbatim>\<open>RbtTokenPtr\<close> until
  \<^verbatim>\<open>Current\<close> is called; \<^verbatim>\<open>filep\<close> and \<^verbatim>\<open>contextp\<close> hold the objects they point to.
\<close>

record RbtStringTokenIter =
  current :: "RbtToken option"
  filep :: istream
  strtok :: string
  contextp :: RbtContext

text \<open>
  \<^verbatim>\<open>RbtTokenPtr RbtStringTokenIter::translate(RbtString s)\<close>, with the Context that
  \<^verbatim>\<open>contextp\<close> points to as an argument and as a part of the result. \<^verbatim>\<open>error\<close> is
  the end pointer that \<^verbatim>\<open>strtod\<close> stores: what is left of the C string.
\<close>

definition translate :: "RbtContext \<Rightarrow> string \<Rightarrow> RbtError + RbtToken \<times> RbtContext" where
  "translate ctx s =
     (if length s = 0 then Inl (RbtError ''Missing token, can't translate the expression'')
      else if s = ''+'' then Inr (Operator ADD, ctx)
      else if s = ''-'' then Inr (Operator SUB, ctx)
      else if s = ''*'' then Inr (Operator MUL, ctx)
      else if s = ''/'' then Inr (Operator DIV, ctx)
      else if s = ''if'' then Inr (Operator IF, ctx)
      else if s = ''log'' then Inr (Operator LOG, ctx)
      else if s = ''exp'' then Inr (Operator EXP, ctx)
      else if s = ''and'' then Inr (Operator AND, ctx)
      else if npos \<noteq> string_find s ''SCORE''
            \<or> npos \<noteq> string_find s ''SITE''
            \<or> npos \<noteq> string_find s ''LIG''
        then (case GetVble (Assign ctx s (Num 0)) s of
                (h, ctx') \<Rightarrow> Inr (VariableRef h, ctx'))
      else (case strtod (c_str s) of
              (val, error, errno) \<Rightarrow>
                if \<not> errno \<and> deref error = CHR 0x00
                  then (case GetVble (Assign ctx s val) s of
                          (h, ctx') \<Rightarrow> Inr (VariableRef h, ctx'))
                else Inl (RbtError (''Can't read '' @ s))))"

text \<open>
  The constructor: the members are initialised (\<^verbatim>\<open>current\<close> null, \<^verbatim>\<open>strtok\<close> empty)
  and the first word is read.
\<close>

definition RbtStringTokenIter_new :: "istream \<Rightarrow> RbtContext \<Rightarrow> RbtStringTokenIter" where
  "RbtStringTokenIter_new fn co =
     (case read_word fn [] of
        (fn', w) \<Rightarrow> \<lparr>current = None, filep = fn', strtok = w, contextp = co\<rparr>)"

text \<open>\<^verbatim>\<open>void Next(RbtContextPtr)\<close>: the parameter has no name and is not used.\<close>

definition Next :: "RbtContext \<Rightarrow> RbtStringTokenIter \<Rightarrow> RbtStringTokenIter" where
  "Next co it =
     (case read_word (filep it) (strtok it) of
        (fn', w) \<Rightarrow> it\<lparr>filep := fn', strtok := w\<rparr>)"

text \<open>
  \<^verbatim>\<open>RbtTokenPtr Current()\<close>: when \<^verbatim>\<open>translate\<close> throws, the assignment to
  \<^verbatim>\<open>current\<close> does not happen and the exception leaves the function.
\<close>

definition Current :: "RbtStringTokenIter \<Rightarrow> RbtError + RbtToken \<times> RbtStringTokenIter" where
  "Current it =
     (case translate (contextp it) (strtok it) of
        Inl e \<Rightarrow> Inl e
      | Inr (t, ctx') \<Rightarrow> Inr (t, it\<lparr>current := Some t, contextp := ctx'\<rparr>))"

subsection \<open>Call sequences of a client\<close>

text \<open>
  A client drives the iterator by calls of \<^verbatim>\<open>Current()\<close> and \<^verbatim>\<open>Next(ctx)\<close>. A call of
  \<^verbatim>\<open>Current\<close> that throws leaves the iterator as it was; the client may catch the
  exception and go on.
\<close>

datatype call = CallCurrent | CallNext RbtContext

definition exec :: "call \<Rightarrow> RbtStringTokenIter \<Rightarrow> RbtStringTokenIter" where
  "exec c it =
     (case c of
        CallNext co \<Rightarrow> Next co it
      | CallCurrent \<Rightarrow> (case Current it of Inl e \<Rightarrow> it | Inr (t, it') \<Rightarrow> it'))"

text \<open>The iterator after a sequence of calls.\<close>

fun run :: "call list \<Rightarrow> RbtStringTokenIter \<Rightarrow> RbtStringTokenIter" where
  "run [] it = it"
| "run (c # cs) it = run cs (exec c it)"

text \<open>What the calls of \<^verbatim>\<open>Current\<close> in a sequence of calls return or throw, in order.\<close>

fun trace :: "call list \<Rightarrow> RbtStringTokenIter \<Rightarrow> (RbtError + RbtToken) list" where
  "trace [] it = []"
| "trace (CallCurrent # cs) it = map_sum id fst (Current it) # trace cs (exec CallCurrent it)"
| "trace (CallNext co # cs) it = trace cs (exec (CallNext co) it)"

text \<open>The variable names and literal strings among the results: the handles of the tokens.\<close>

fun names_seen :: "(RbtError + RbtToken) list \<Rightarrow> string list" where
  "names_seen [] = []"
| "names_seen (Inr (VariableRef h) # rs) = h # names_seen rs"
| "names_seen (r # rs) = names_seen rs"

section \<open>Properties\<close>

subsection \<open>Substring search\<close>

lemma string_find_sublist: "string_find s pat \<noteq> None \<longleftrightarrow> sublist pat s"
  by (induction s) (auto simp: sublist_Cons_right)

lemma npos_find_sublist: "npos = string_find s pat \<longleftrightarrow> \<not> sublist pat s"
  using string_find_sublist [of s pat] by (auto simp: npos_def)

subsection \<open>The end pointer of strtod\<close>

text \<open>
  What \<^verbatim>\<open>strtod\<close> leaves is a suffix of its input. The C string of a word holds no NUL,
  so the end pointer reads NUL exactly when nothing is left.
\<close>

lemma match_nocase_suffix: "match_nocase p s = Some r \<Longrightarrow> suffix r s"
proof (induction p s rule: match_nocase.induct)
  case (1 s)
  then show ?case by simp
next
  case (2 p ps)
  then show ?case by simp
next
  case (3 p ps c cs)
  then show ?case by (simp split: if_splits add: suffix_ConsI)
qed

lemma suffix_dropWhile_trans: "suffix xs ys \<Longrightarrow> suffix (dropWhile P xs) ys"
  using suffix_dropWhile suffix_order.trans by blast

lemma parse_exponent_suffix:
  assumes "parse_exponent lo up r = (e, r')"
  shows "suffix r' r"
proof (cases r)
  case Nil
  with assms show ?thesis by (simp add: parse_exponent_def)
next
  case (Cons c cs)
  show ?thesis
  proof (cases "c = lo \<or> c = up")
    case False
    with assms Cons show ?thesis by (simp add: parse_exponent_def)
  next
    case True
    define d where "d = (case cs of [] \<Rightarrow> cs | x # xs \<Rightarrow>
        if x = CHR ''-'' then xs else if x = CHR ''+'' then xs else cs)"
    have "suffix d cs"
      by (simp add: d_def suffix_ConsI split: list.splits)
    then have sd: "suffix (dropWhile isdigit d) r"
      unfolding Cons by (intro suffix_dropWhile_trans suffix_ConsI)
    have "r' = r \<or> r' = dropWhile isdigit d"
      using assms True unfolding Cons d_def
      by (auto simp: parse_exponent_def Let_def split: list.splits if_splits)
    with sd show ?thesis by auto
  qed
qed

lemma parse_mantissa_suffix:
  assumes "parse_mantissa dig s = (ip, fp, r)"
  shows "suffix r s"
proof -
  define r1 where "r1 = dropWhile dig s"
  have d: "suffix r1 s"
    unfolding r1_def by (rule suffix_dropWhile)
  have p: "(case r1 of
              [] \<Rightarrow> (takeWhile dig s, [], r1)
            | c # cs \<Rightarrow>
                if c = CHR ''.'' then (takeWhile dig s, takeWhile dig cs, dropWhile dig cs)
                else (takeWhile dig s, [], r1)) = (ip, fp, r)"
    using assms unfolding parse_mantissa_def Let_def r1_def .
  show ?thesis
  proof (cases r1)
    case Nil
    with p d show ?thesis by simp
  next
    case (Cons c cs)
    have "suffix cs s"
      using d unfolding Cons by (rule suffix_ConsD)
    then have "suffix (dropWhile dig cs) s"
      by (rule suffix_dropWhile_trans)
    moreover have "r = r1 \<or> r = dropWhile dig cs"
      using p unfolding Cons by (simp split: if_splits)
    ultimately show ?thesis
      using d by auto
  qed
qed

lemma parse_decimal_suffix:
  assumes "parse_decimal s = Some (q, r)"
  shows "suffix r s"
proof -
  obtain ip fp r2 where m: "parse_mantissa isdigit s = (ip, fp, r2)"
    by (cases "parse_mantissa isdigit s") auto
  obtain e r3 where x: "parse_exponent (CHR ''e'') (CHR ''E'') r2 = (e, r3)"
    by (cases "parse_exponent (CHR ''e'') (CHR ''E'') r2") auto
  have "r = r3"
    using assms by (simp add: parse_decimal_def m x split: if_splits)
  then show ?thesis
    using suffix_order.trans [OF parse_exponent_suffix [OF x] parse_mantissa_suffix [OF m]]
    by simp
qed

lemma parse_hexadecimal_suffix:
  assumes "parse_hexadecimal s = Some (q, r)"
  shows "suffix r s"
proof (cases s)
  case Nil
  with assms show ?thesis by (simp add: parse_hexadecimal_def)
next
  case s1: (Cons z s')
  show ?thesis
  proof (cases s')
    case Nil
    with assms s1 show ?thesis by (simp add: parse_hexadecimal_def)
  next
    case (Cons x t)
    obtain ip fp r2 where m: "parse_mantissa isxdigit t = (ip, fp, r2)"
      by (cases "parse_mantissa isxdigit t") auto
    obtain e r3 where x: "parse_exponent (CHR ''p'') (CHR ''P'') r2 = (e, r3)"
      by (cases "parse_exponent (CHR ''p'') (CHR ''P'') r2") auto
    have "r = r3"
      using assms unfolding s1 Cons by (simp add: parse_hexadecimal_def m x split: if_splits)
    moreover have "suffix r3 t"
      by (rule suffix_order.trans [OF parse_exponent_suffix [OF x] parse_mantissa_suffix [OF m]])
    ultimately show ?thesis
      unfolding s1 Cons by (simp add: suffix_ConsI)
  qed
qed

lemma parse_inf_suffix:
  assumes "parse_inf s = Some r"
  shows "suffix r s"
proof -
  have "match_nocase ''infinity'' s = Some r \<or> match_nocase ''inf'' s = Some r"
    using assms unfolding parse_inf_def by (cases "match_nocase ''infinity'' s") simp_all
  then show ?thesis
    using match_nocase_suffix by (elim disjE)
qed

lemma parse_nan_suffix:
  assumes "parse_nan s = Some r"
  shows "suffix r s"
proof -
  obtain r1 where m: "match_nocase ''nan'' s = Some r1"
    using assms unfolding parse_nan_def by (cases "match_nocase ''nan'' s") simp_all
  have r1: "suffix r1 s"
    by (rule match_nocase_suffix [OF m])
  show ?thesis
  proof (cases r1)
    case Nil
    with assms r1 show ?thesis unfolding parse_nan_def m by simp
  next
    case (Cons c cs)
    define d where "d = dropWhile (\<lambda>x. isdigit x \<or> isalpha x \<or> x = CHR ''_'') cs"
    have cs: "suffix cs s"
      using r1 unfolding Cons by (rule suffix_ConsD)
    have d: "suffix d s"
      unfolding d_def using cs by (rule suffix_dropWhile_trans)
    have p: "(if c = CHR ''('' then
               (case d of [] \<Rightarrow> Some r1
                | y # ys \<Rightarrow> if y = CHR '')'' then Some ys else Some r1)
             else Some r1) = Some r"
      using assms unfolding parse_nan_def m d_def Cons by simp
    show ?thesis
    proof (cases d)
      case Nil
      with p r1 show ?thesis by (simp split: if_splits)
    next
      case d2: (Cons y ys)
      have "suffix ys s"
        using d unfolding d2 by (rule suffix_ConsD)
      moreover have "r = r1 \<or> r = ys"
        using p unfolding d2 by (simp split: if_splits)
      ultimately show ?thesis
        using r1 by auto
    qed
  qed
qed

lemma range_check_rest: "range_check neg q rest = (v, r, e) \<Longrightarrow> r = rest"
  unfolding range_check_def by (simp split: if_splits)

lemma strtod_suffix:
  assumes "strtod nptr = (v, rest, e)"
  shows "suffix rest nptr"
proof -
  define s where "s = dropWhile isspace nptr"
  define neg where "neg = (case s of [] \<Rightarrow> False | c # cs \<Rightarrow> c = CHR ''-'')"
  define s1 where "s1 = (case s of [] \<Rightarrow> s | c # cs \<Rightarrow>
      if c = CHR ''-'' then cs else if c = CHR ''+'' then cs else s)"
  have "suffix s1 s"
    unfolding s1_def by (cases s) (simp_all add: suffix_ConsI)
  moreover have "suffix s nptr"
    unfolding s_def by (rule suffix_dropWhile)
  ultimately have s1: "suffix s1 nptr"
    by (rule suffix_order.trans)
  have sign: "(case s of
                 [] \<Rightarrow> (False, s)
               | c # cs \<Rightarrow>
                   if c = CHR ''-'' then (True, cs)
                   else if c = CHR ''+'' then (False, cs)
                   else (False, s)) = (neg, s1)"
    unfolding neg_def s1_def by (cases s) simp_all
  have p: "(case parse_inf s1 of
           Some rest \<Rightarrow> (if neg then MinusInf else PlusInf, rest, False)
         | None \<Rightarrow>
             (case parse_nan s1 of
                Some rest \<Rightarrow> (NaN, rest, False)
              | None \<Rightarrow>
                  (case parse_hexadecimal s1 of
                     Some (q, rest) \<Rightarrow> range_check neg q rest
                   | None \<Rightarrow>
                       (case parse_decimal s1 of
                          Some (q, rest) \<Rightarrow> range_check neg q rest
                        | None \<Rightarrow> (Num 0, nptr, False))))) = (v, rest, e)"
    using assms unfolding strtod_def s_def [symmetric] Let_def sign by simp
  show ?thesis
  proof (cases "parse_inf s1")
    case (Some r)
    with p have "rest = r" by simp
    with parse_inf_suffix [OF Some] s1 show ?thesis
      by (auto intro: suffix_order.trans)
  next
    case i: None
    show ?thesis
    proof (cases "parse_nan s1")
      case (Some r)
      with p i have "rest = r" by simp
      with parse_nan_suffix [OF Some] s1 show ?thesis
        by (auto intro: suffix_order.trans)
    next
      case n: None
      show ?thesis
      proof (cases "parse_hexadecimal s1")
        case (Some qr)
        obtain q r where qr: "qr = (q, r)" by (cases qr) auto
        from p i n Some qr have "range_check neg q r = (v, rest, e)" by simp
        then have "rest = r" by (rule range_check_rest)
        with parse_hexadecimal_suffix [OF Some [unfolded qr]] s1 show ?thesis
          by (auto intro: suffix_order.trans)
      next
        case h: None
        show ?thesis
        proof (cases "parse_decimal s1")
          case (Some qr)
          obtain q r where qr: "qr = (q, r)" by (cases qr) auto
          from p i n h Some qr have "range_check neg q r = (v, rest, e)" by simp
          then have "rest = r" by (rule range_check_rest)
          with parse_decimal_suffix [OF Some [unfolded qr]] s1 show ?thesis
            by (auto intro: suffix_order.trans)
        next
          case None
          with p i n h show ?thesis by simp
        qed
      qed
    qed
  qed
qed

lemma c_str_no_NUL: "CHR 0x00 \<notin> set (c_str s)"
  unfolding c_str_def using set_takeWhileD [of "CHR 0x00" "\<lambda>c. c \<noteq> CHR 0x00" s] by blast

lemma strtod_c_str_rest:
  assumes "strtod (c_str s) = (v, rest, e)"
  shows "CHR 0x00 \<notin> set rest"
  using set_mono_suffix [OF strtod_suffix [OF assms]] c_str_no_NUL [of s] by blast

lemma deref_end:
  assumes "strtod (c_str s) = (v, rest, e)"
  shows "deref rest = CHR 0x00 \<longleftrightarrow> rest = []"
  using strtod_c_str_rest [OF assms] by (cases rest) (auto simp: deref_def)

subsection \<open>The branches of the classifier\<close>

lemma translate_empty: "translate ctx [] = Inl EmptyToken"
  by (simp add: translate_def EmptyToken_def)

lemma translate_operator:
  assumes "s \<in> {''+'', ''-'', ''*'', ''/'', ''if'', ''log'', ''exp'', ''and''}"
  shows "\<exists>c. \<forall>ctx. translate ctx s = Inr (Operator c, ctx)"
proof -
  have "\<forall>ctx. translate ctx ''+'' = Inr (Operator ADD, ctx)"
    and "\<forall>ctx. translate ctx ''-'' = Inr (Operator SUB, ctx)"
    and "\<forall>ctx. translate ctx ''*'' = Inr (Operator MUL, ctx)"
    and "\<forall>ctx. translate ctx ''/'' = Inr (Operator DIV, ctx)"
    and "\<forall>ctx. translate ctx ''if'' = Inr (Operator IF, ctx)"
    and "\<forall>ctx. translate ctx ''log'' = Inr (Operator LOG, ctx)"
    and "\<forall>ctx. translate ctx ''exp'' = Inr (Operator EXP, ctx)"
    and "\<forall>ctx. translate ctx ''and'' = Inr (Operator AND, ctx)"
    by (simp_all add: translate_def)
  with assms show ?thesis
    by blast
qed

text \<open>
  A word with one of the three substrings is neither empty nor an operator word, so it
  reaches the third branch, which assigns 0.0 under the word as the name.
\<close>

lemma translate_quantity:
  assumes "sublist ''SCORE'' s \<or> sublist ''SITE'' s \<or> sublist ''LIG'' s"
  shows "translate ctx s = Inr (VariableRef s, ctx(s \<mapsto> Num 0))"
proof -
  have f: "npos \<noteq> string_find s ''SCORE'' \<or> npos \<noteq> string_find s ''SITE''
             \<or> npos \<noteq> string_find s ''LIG''"
    using assms by (simp add: npos_find_sublist)
  have "s \<noteq> []"
    using f by (auto simp: npos_def)
  moreover have "s \<notin> {''+'', ''-'', ''*'', ''/'', ''if'', ''log'', ''exp'', ''and''}"
    using f by (auto simp: npos_def)
  ultimately show ?thesis
    using f by (simp add: translate_def Assign_def GetVble_def)
qed

text \<open>The last branch: the outcome is decided by what \<^verbatim>\<open>strtod\<close> returns.\<close>

lemma translate_number:
  assumes "s \<noteq> []"
    and "s \<notin> {''+'', ''-'', ''*'', ''/'', ''if'', ''log'', ''exp'', ''and''}"
    and "\<not> (sublist ''SCORE'' s \<or> sublist ''SITE'' s \<or> sublist ''LIG'' s)"
    and "strtod (c_str s) = (val, rest, err)"
  shows "translate ctx s =
           (if \<not> err \<and> rest = [] then Inr (VariableRef s, ctx(s \<mapsto> val))
            else Inl (UnrecognizedToken s))"
proof -
  have "\<not> (npos \<noteq> string_find s ''SCORE'' \<or> npos \<noteq> string_find s ''SITE''
             \<or> npos \<noteq> string_find s ''LIG'')"
    using assms(3) by (simp add: npos_find_sublist)
  then show ?thesis
    using assms(1,2,4) deref_end [OF assms(4)]
    by (simp add: translate_def Assign_def GetVble_def UnrecognizedToken_def)
qed

text \<open>
  What a word is classified as does not depend on the Context: the word alone decides
  between a failure, an operator and a value stored under the word.
\<close>

lemma translate_shape:
  "\<exists>r. \<forall>ctx. translate ctx s =
     (case r of
        Inl e \<Rightarrow> Inl e
      | Inr (Inl c) \<Rightarrow> Inr (Operator c, ctx)
      | Inr (Inr v) \<Rightarrow> Inr (VariableRef s, ctx(s \<mapsto> v)))"
proof -
  consider (empty) "s = []"
    | (oper) "s \<in> {''+'', ''-'', ''*'', ''/'', ''if'', ''log'', ''exp'', ''and''}"
    | (quant) "sublist ''SCORE'' s \<or> sublist ''SITE'' s \<or> sublist ''LIG'' s"
    | (numb) "s \<noteq> []"
        "s \<notin> {''+'', ''-'', ''*'', ''/'', ''if'', ''log'', ''exp'', ''and''}"
        "\<not> (sublist ''SCORE'' s \<or> sublist ''SITE'' s \<or> sublist ''LIG'' s)"
    by blast
  then show ?thesis
  proof cases
    case empty
    then show ?thesis
      by (intro exI [of _ "Inl EmptyToken"]) (simp add: translate_empty)
  next
    case oper
    from translate_operator [OF this] obtain c
      where "\<forall>ctx. translate ctx s = Inr (Operator c, ctx)" ..
    then show ?thesis
      by (intro exI [of _ "Inr (Inl c)"]) simp
  next
    case quant
    then show ?thesis
      by (intro exI [of _ "Inr (Inr (Num 0))"]) (simp add: translate_quantity)
  next
    case numb
    obtain val rest err where p: "strtod (c_str s) = (val, rest, err)"
      by (cases "strtod (c_str s)") auto
    show ?thesis
    proof (cases "\<not> err \<and> rest = []")
      case True
      then show ?thesis
        using translate_number [OF numb p]
        by (intro exI [of _ "Inr (Inr val)"]) simp
    next
      case False
      then show ?thesis
        using translate_number [OF numb p]
        by (intro exI [of _ "Inl (UnrecognizedToken s)"]) simp
    qed
  qed
qed

lemma Current_shape:
  "\<exists>r. \<forall>it. strtok it = s \<longrightarrow> Current it =
     (case r of
        Inl e \<Rightarrow> Inl e
      | Inr (Inl c) \<Rightarrow> Inr (Operator c, it\<lparr>current := Some (Operator c)\<rparr>)
      | Inr (Inr v) \<Rightarrow>
          Inr (VariableRef s,
               it\<lparr>current := Some (VariableRef s), contextp := (contextp it)(s \<mapsto> v)\<rparr>))"
proof -
  from translate_shape [of s] obtain r where
    r: "\<And>ctx. translate ctx s =
      (case r of
         Inl e \<Rightarrow> Inl e
       | Inr (Inl c) \<Rightarrow> Inr (Operator c, ctx)
       | Inr (Inr v) \<Rightarrow> Inr (VariableRef s, ctx(s \<mapsto> v)))"
    by blast
  show ?thesis
    by (rule exI [of _ r]) (simp add: Current_def r split: sum.splits)
qed

lemma Current_twice:
  assumes "Current it = Inr (t, it')"
  shows "Current it' = Inr (t, it')"
proof -
  from Current_shape [of "strtok it"] obtain r where
    r: "\<And>j. strtok j = strtok it \<Longrightarrow> Current j =
      (case r of
         Inl e \<Rightarrow> Inl e
       | Inr (Inl c) \<Rightarrow> Inr (Operator c, j\<lparr>current := Some (Operator c)\<rparr>)
       | Inr (Inr v) \<Rightarrow>
           Inr (VariableRef (strtok it),
                j\<lparr>current := Some (VariableRef (strtok it)),
                  contextp := (contextp j)(strtok it \<mapsto> v)\<rparr>))"
    by blast
  have s: "strtok it' = strtok it"
    using assms r [of it] by (auto split: sum.splits)
  show ?thesis
    using assms r [of it] r [OF s] by (auto split: sum.splits)
qed

subsection \<open>The Context along a call sequence\<close>

lemma exec_Current_dom:
  "dom (contextp (exec CallCurrent it)) =
     dom (contextp it) \<union> set (names_seen [map_sum id fst (Current it)])"
proof -
  from Current_shape [of "strtok it"] obtain r where
    r: "Current it =
      (case r of
         Inl e \<Rightarrow> Inl e
       | Inr (Inl c) \<Rightarrow> Inr (Operator c, it\<lparr>current := Some (Operator c)\<rparr>)
       | Inr (Inr v) \<Rightarrow>
           Inr (VariableRef (strtok it),
                it\<lparr>current := Some (VariableRef (strtok it)),
                  contextp := (contextp it)(strtok it \<mapsto> v)\<rparr>))"
    by blast
  show ?thesis
    by (cases r) (auto simp: exec_def r split: sum.splits)
qed

lemma exec_Next_contextp: "contextp (exec (CallNext co) it) = contextp it"
  by (simp add: exec_def Next_def split: prod.splits)

lemma names_seen_Cons: "names_seen (r # rs) = names_seen [r] @ names_seen rs"
  by (cases "r # rs" rule: names_seen.cases) auto

lemma run_dom:
  "dom (contextp (run cs it)) = dom (contextp it) \<union> set (names_seen (trace cs it))"
proof (induction cs arbitrary: it)
  case Nil
  show ?case by simp
next
  case (Cons c cs)
  show ?case
  proof (cases c)
    case CallCurrent
    then show ?thesis
      using Cons.IH [of "exec CallCurrent it"] exec_Current_dom [of it]
        names_seen_Cons [of "map_sum id fst (Current it)" "trace cs (exec CallCurrent it)"]
      by auto
  next
    case (CallNext co)
    then show ?thesis
      using Cons.IH [of "exec (CallNext co) it"] by (simp add: exec_Next_contextp)
  qed
qed

lemma exec_dom_step:
  "dom (contextp it) \<subseteq> dom (contextp (exec c it))
   \<and> dom (contextp (exec c it)) \<subseteq> insert (strtok it) (dom (contextp it))"
proof (cases c)
  case CallCurrent
  from Current_shape [of "strtok it"] obtain r where
    r: "Current it =
      (case r of
         Inl e \<Rightarrow> Inl e
       | Inr (Inl c) \<Rightarrow> Inr (Operator c, it\<lparr>current := Some (Operator c)\<rparr>)
       | Inr (Inr v) \<Rightarrow>
           Inr (VariableRef (strtok it),
                it\<lparr>current := Some (VariableRef (strtok it)),
                  contextp := (contextp it)(strtok it \<mapsto> v)\<rparr>))"
    by blast
  show ?thesis
    unfolding CallCurrent by (cases r) (auto simp: exec_def r split: sum.splits)
next
  case (CallNext co)
  then show ?thesis by (auto simp: exec_Next_contextp)
qed

subsection \<open>Reading a word\<close>

lemma read_word_next:
  assumes "good ins" and "unread ins = sp @ w @ rest"
    and "\<forall>c\<in>set sp. isspace c" and "w \<noteq> []" and "\<forall>c\<in>set w. \<not> isspace c"
    and "rest = [] \<or> isspace (hd rest)"
  shows "read_word ins str = (ins\<lparr>unread := rest, eofbit := (rest = [])\<rparr>, w)"
proof -
  have d: "dropWhile isspace (unread ins) = w @ rest"
    using assms(2-5) by (cases w) (simp_all add: dropWhile_append3)
  have t: "takeWhile (\<lambda>c. \<not> isspace c) (w @ rest) = w"
    using assms(5,6) by (cases rest) (simp_all add: takeWhile_tail)
  have r: "dropWhile (\<lambda>c. \<not> isspace c) (w @ rest) = rest"
    using assms(5,6) by (cases rest) (simp_all add: dropWhile_append3)
  show ?thesis
    using assms(1,4) by (simp add: read_word_def d t r)
qed

lemma read_word_none:
  assumes "\<not> good ins \<or> (\<forall>c\<in>set (unread ins). isspace c)"
  shows "snd (read_word ins str) = str"
  using assms by (auto simp: read_word_def Let_def)

subsection \<open>Concrete words and streams\<close>

lemmas strtod_defs = strtod_def isspace_def parse_inf_def parse_nan_def parse_hexadecimal_def
  parse_decimal_def parse_mantissa_def parse_exponent_def isdigit_def isxdigit_def isalpha_def
  digits_value_def digit_value_def pow_int_def range_check_def tolower_code_def c_str_def

lemmas iter_defs = RbtStringTokenIter_new_def istringstream_def read_word_def good_def
  Next_def exec_def isspace_def

lemma strtod_314: "strtod (c_str ''3.14'') = (Num 3.14, [], False)"
  by (simp add: strtod_defs)

lemma strtod_LOG: "strtod (c_str ''LOG'') = (Num 0, ''LOG'', False)"
  by (simp add: strtod_defs)

lemma strtod_314x: "strtod (c_str ''3.14x'') = (Num 3.14, ''x'', False)"
  by (simp add: strtod_defs)

lemma strtod_foo: "strtod (c_str ''foo'') = (Num 0, ''foo'', False)"
  by (simp add: strtod_defs)

lemma strtod_inf: "strtod (c_str ''inf'') = (PlusInf, [], False)"
  by (simp add: strtod_defs)

lemma strtod_nan: "strtod (c_str ''nan'') = (NaN, [], False)"
  by (simp add: strtod_defs)

lemma strtod_minus2: "strtod (c_str ''-2'') = (Num (- 2), [], False)"
  by (simp add: strtod_defs)

lemma strtod_1e999: "strtod (c_str ''1e999'') = (PlusInf, [], True)"
  by (simp add: strtod_defs)

text \<open>
  Around \<^verbatim>\<open>DBL_MIN\<close>: a literal that rounds up to \<^verbatim>\<open>DBL_MIN\<close> is converted without
  an error, one that stays below it and is inexact sets \<^verbatim>\<open>ERANGE\<close>, and the least
  subnormal number, written exactly, does not.
\<close>

lemma floor_rat_numeral_div:
  "\<lfloor>numeral a / numeral b :: rat\<rfloor> = numeral a div numeral b"
  using floor_divide_of_int_eq [of "numeral a" "numeral b", where ?'a = rat] by simp

lemma strtod_near_DBL_MIN:
  "snd (strtod (c_str ''2.22507385850720138e-308'')) = ([], False)"
  "snd (strtod (c_str ''0x7fffffffffffffp-1077'')) = ([], False)"
  "snd (strtod (c_str ''2.2250738585072011e-308'')) = ([], True)"
  "snd (strtod (c_str ''0x1p-1074'')) = ([], False)"
  by (simp_all add: strtod_defs floor_rat_numeral_div)

lemma not_quantity:
  "\<not> (sublist ''SCORE'' ''3.14'' \<or> sublist ''SITE'' ''3.14'' \<or> sublist ''LIG'' ''3.14'')"
  "\<not> (sublist ''SCORE'' ''LOG'' \<or> sublist ''SITE'' ''LOG'' \<or> sublist ''LIG'' ''LOG'')"
  "\<not> (sublist ''SCORE'' ''3.14x'' \<or> sublist ''SITE'' ''3.14x'' \<or> sublist ''LIG'' ''3.14x'')"
  "\<not> (sublist ''SCORE'' ''foo'' \<or> sublist ''SITE'' ''foo'' \<or> sublist ''LIG'' ''foo'')"
  "\<not> (sublist ''SCORE'' ''inf'' \<or> sublist ''SITE'' ''inf'' \<or> sublist ''LIG'' ''inf'')"
  "\<not> (sublist ''SCORE'' ''nan'' \<or> sublist ''SITE'' ''nan'' \<or> sublist ''LIG'' ''nan'')"
  "\<not> (sublist ''SCORE'' ''-2'' \<or> sublist ''SITE'' ''-2'' \<or> sublist ''LIG'' ''-2'')"
  "\<not> (sublist ''SCORE'' ''1e999'' \<or> sublist ''SITE'' ''1e999'' \<or> sublist ''LIG'' ''1e999'')"
  by (simp_all add: npos_find_sublist [symmetric] npos_def)

lemma translate_314:
  "translate ctx ''3.14'' = Inr (VariableRef ''3.14'', ctx(''3.14'' \<mapsto> Num 3.14))"
  using translate_number [OF _ _ not_quantity(1) strtod_314, of ctx] by simp

lemma translate_LOG: "translate ctx ''LOG'' = Inl (UnrecognizedToken ''LOG'')"
  using translate_number [OF _ _ not_quantity(2) strtod_LOG, of ctx] by simp

lemma translate_log: "translate ctx ''log'' = Inr (Operator LOG, ctx)"
  by (simp add: translate_def)

lemma Current_unfold:
  "Current it =
     (case translate (contextp it) (strtok it) of
        Inl e \<Rightarrow> Inl e
      | Inr (t, ctx') \<Rightarrow> Inr (t, it\<lparr>current := Some t, contextp := ctx'\<rparr>))"
  by (simp add: Current_def)

subsection \<open>Scored-quantity names\<close>

text \<open>
  C1, as the code has it. For every word that contains \<open>SCORE\<close>, \<open>SITE\<close> or \<open>LIG\<close>
  as a substring the classifier returns a VariableRef token bound to the Context entry
  named by the word, and that entry holds 0.0 afterwards: on the first classification
  and on every later one. Classifying the same word again, after any value \<open>v\<close> has
  been assigned to the entry, returns a VariableRef to the same entry and makes no second
  entry, but the entry's value is 0.0 again, not \<open>v\<close>.
\<close>

theorem translate_quantity_assigns_zero:
  assumes "sublist ''SCORE'' s \<or> sublist ''SITE'' s \<or> sublist ''LIG'' s"
  shows "translate ctx s = Inr (VariableRef s, ctx(s \<mapsto> Num 0))
    \<and> Get (ctx(s \<mapsto> Num 0)) (VariableRef s) = Some (Num 0)
    \<and> translate (Assign (ctx(s \<mapsto> Num 0)) s v) s = Inr (VariableRef s, ctx(s \<mapsto> Num 0))"
proof -
  have first: "translate ctx s = Inr (VariableRef s, ctx(s \<mapsto> Num 0))"
    by (rule translate_quantity [OF assms])
  have "translate (Assign (ctx(s \<mapsto> Num 0)) s v) s =
          Inr (VariableRef s, (Assign (ctx(s \<mapsto> Num 0)) s v)(s \<mapsto> Num 0))"
    by (rule translate_quantity [OF assms])
  then have again:
    "translate (Assign (ctx(s \<mapsto> Num 0)) s v) s = Inr (VariableRef s, ctx(s \<mapsto> Num 0))"
    by (simp add: Assign_def)
  from first again show ?thesis
    by (simp add: Get_def)
qed

lemma quantity_SCORE_INTER:
  "sublist ''SCORE'' ''SCORE.INTER'' \<or> sublist ''SITE'' ''SCORE.INTER''
     \<or> sublist ''LIG'' ''SCORE.INTER''"
  by (simp add: string_find_sublist [symmetric])

theorem translate_quantity_assigns_zero_witness:
  "translate Map.empty ''SCORE.INTER'' = Inr (VariableRef ''SCORE.INTER'', [''SCORE.INTER'' \<mapsto> Num 0])
   \<and> Get [''SCORE.INTER'' \<mapsto> Num 0] (VariableRef ''SCORE.INTER'') = Some (Num 0)
   \<and> translate (Assign [''SCORE.INTER'' \<mapsto> Num 0] ''SCORE.INTER'' (Num 1)) ''SCORE.INTER''
       = Inr (VariableRef ''SCORE.INTER'', [''SCORE.INTER'' \<mapsto> Num 0])"
  using translate_quantity_assigns_zero [OF quantity_SCORE_INTER, of Map.empty "Num 1"]
  by simp

text \<open>
  The claim as the specification states it fails: the word \<open>SCORE.INTER\<close> is classified,
  the external source assigns 1.0 to its entry, and the word is classified again. The
  entry then holds 0.0 and no longer the value last assigned.
\<close>

theorem translate_quantity_keeps_value_counterexample:
  "translate Map.empty ''SCORE.INTER''
     = Inr (VariableRef ''SCORE.INTER'', [''SCORE.INTER'' \<mapsto> Num 0])
   \<and> Assign [''SCORE.INTER'' \<mapsto> Num 0] ''SCORE.INTER'' (Num 1) = [''SCORE.INTER'' \<mapsto> Num 1]
   \<and> Get [''SCORE.INTER'' \<mapsto> Num 1] (VariableRef ''SCORE.INTER'') = Some (Num 1)
   \<and> translate [''SCORE.INTER'' \<mapsto> Num 1] ''SCORE.INTER''
       = Inr (VariableRef ''SCORE.INTER'', [''SCORE.INTER'' \<mapsto> Num 0])
   \<and> Get [''SCORE.INTER'' \<mapsto> Num 0] (VariableRef ''SCORE.INTER'') \<noteq> Some (Num 1)"
proof -
  have "translate Map.empty ''SCORE.INTER''
          = Inr (VariableRef ''SCORE.INTER'', [''SCORE.INTER'' \<mapsto> Num 0])"
    by (rule translate_quantity [OF quantity_SCORE_INTER])
  moreover have "translate [''SCORE.INTER'' \<mapsto> Num 1] ''SCORE.INTER''
          = Inr (VariableRef ''SCORE.INTER'', [''SCORE.INTER'' \<mapsto> Num 0])"
    using translate_quantity [OF quantity_SCORE_INTER, of "[''SCORE.INTER'' \<mapsto> Num 1]"]
    by simp
  ultimately show ?thesis
    by (simp add: Assign_def Get_def)
qed

subsection \<open>The stream 3.14 LOG\<close>

lemma new_314_LOG:
  "RbtStringTokenIter_new (istringstream ''3.14 LOG'') co =
     \<lparr>current = None, filep = \<lparr>unread = '' LOG'', eofbit = False, failbit = False\<rparr>,
      strtok = ''3.14'', contextp = co\<rparr>"
  by (simp add: iter_defs)

lemma new_314_log:
  "RbtStringTokenIter_new (istringstream ''3.14 log'') co =
     \<lparr>current = None, filep = \<lparr>unread = '' log'', eofbit = False, failbit = False\<rparr>,
      strtok = ''3.14'', contextp = co\<rparr>"
  by (simp add: iter_defs)

lemma trace_314_LOG:
  "trace [CallCurrent, CallNext co, CallCurrent]
     (RbtStringTokenIter_new (istringstream ''3.14 LOG'') Map.empty)
   = [Inr (VariableRef ''3.14''), Inl (UnrecognizedToken ''LOG'')]"
  by (simp add: new_314_LOG iter_defs Current_unfold translate_314 translate_LOG)

lemma run_314_LOG:
  "contextp (run [CallCurrent, CallNext co, CallCurrent]
     (RbtStringTokenIter_new (istringstream ''3.14 LOG'') Map.empty))
   = [''3.14'' \<mapsto> Num 3.14]"
  by (simp add: new_314_LOG iter_defs Current_unfold translate_314 translate_LOG)

lemma trace_314_log:
  "trace [CallCurrent, CallNext co, CallCurrent]
     (RbtStringTokenIter_new (istringstream ''3.14 log'') Map.empty)
   = [Inr (VariableRef ''3.14''), Inr (Operator LOG)]"
  by (simp add: new_314_log iter_defs Current_unfold translate_314 translate_log)

lemma run_314_log:
  "contextp (run [CallCurrent, CallNext co, CallCurrent]
     (RbtStringTokenIter_new (istringstream ''3.14 log'') Map.empty))
   = [''3.14'' \<mapsto> Num 3.14]"
  by (simp add: new_314_log iter_defs Current_unfold translate_314 translate_log)

text \<open>
  C2, as the code has it. On the stream \<open>3.14 LOG\<close> the first word produces a
  VariableRef whose Context entry is named by the exact string \<open>3.14\<close> and holds 3.14; the
  second word \<open>LOG\<close> does not produce an operator: the operator words are compared in
  lower case only, so it fails with UnrecognizedToken (Can't read LOG). On the stream
  \<open>3.14 log\<close> tokenization succeeds and the second word produces the LOG operator.
\<close>

theorem stream_314_log_tokens:
  "trace [CallCurrent, CallNext co, CallCurrent]
     (RbtStringTokenIter_new (istringstream ''3.14 log'') Map.empty)
     = [Inr (VariableRef ''3.14''), Inr (Operator LOG)]
   \<and> contextp (run [CallCurrent, CallNext co, CallCurrent]
       (RbtStringTokenIter_new (istringstream ''3.14 log'') Map.empty))
     = [''3.14'' \<mapsto> Num 3.14]
   \<and> trace [CallCurrent, CallNext co, CallCurrent]
       (RbtStringTokenIter_new (istringstream ''3.14 LOG'') Map.empty)
     = [Inr (VariableRef ''3.14''), Inl (UnrecognizedToken ''LOG'')]
   \<and> contextp (run [CallCurrent, CallNext co, CallCurrent]
       (RbtStringTokenIter_new (istringstream ''3.14 LOG'') Map.empty))
     = [''3.14'' \<mapsto> Num 3.14]"
proof (intro conjI)
  show "trace [CallCurrent, CallNext co, CallCurrent]
     (RbtStringTokenIter_new (istringstream ''3.14 log'') Map.empty)
     = [Inr (VariableRef ''3.14''), Inr (Operator LOG)]"
    by (rule trace_314_log)
  show "contextp (run [CallCurrent, CallNext co, CallCurrent]
       (RbtStringTokenIter_new (istringstream ''3.14 log'') Map.empty))
     = [''3.14'' \<mapsto> Num 3.14]"
    by (rule run_314_log)
  show "trace [CallCurrent, CallNext co, CallCurrent]
       (RbtStringTokenIter_new (istringstream ''3.14 LOG'') Map.empty)
     = [Inr (VariableRef ''3.14''), Inl (UnrecognizedToken ''LOG'')]"
    by (rule trace_314_LOG)
  show "contextp (run [CallCurrent, CallNext co, CallCurrent]
       (RbtStringTokenIter_new (istringstream ''3.14 LOG'') Map.empty))
     = [''3.14'' \<mapsto> Num 3.14]"
    by (rule run_314_LOG)
qed

theorem stream_314_log_tokens_witness:
  "trace [CallCurrent, CallNext Map.empty, CallCurrent]
     (RbtStringTokenIter_new (istringstream ''3.14 log'') Map.empty)
     = [Inr (VariableRef ''3.14''), Inr (Operator LOG)]
   \<and> Get (contextp (run [CallCurrent, CallNext Map.empty, CallCurrent]
       (RbtStringTokenIter_new (istringstream ''3.14 log'') Map.empty))) (VariableRef ''3.14'')
     = Some (Num 3.14)"
  using stream_314_log_tokens [of Map.empty] by (simp add: Get_def)

text \<open>
  The claim as the specification states it fails: on the stream \<open>3.14 LOG\<close> the second
  call of \<^verbatim>\<open>Current\<close> throws, it does not return the LOG operator.
\<close>

theorem stream_314_LOG_counterexample:
  "trace [CallCurrent, CallNext Map.empty, CallCurrent]
     (RbtStringTokenIter_new (istringstream ''3.14 LOG'') Map.empty)
     = [Inr (VariableRef ''3.14''), Inl (RbtError ''Can't read LOG'')]
   \<and> trace [CallCurrent, CallNext Map.empty, CallCurrent]
       (RbtStringTokenIter_new (istringstream ''3.14 LOG'') Map.empty)
     \<noteq> [Inr (VariableRef ''3.14''), Inr (Operator LOG)]"
  using trace_314_LOG [of Map.empty] by (simp add: UnrecognizedToken_def)

subsection \<open>Operator words\<close>

text \<open>
  C3. For every word of the operator vocabulary (\<open>+\<close>, \<open>-\<close>, \<open>*\<close>, \<open>/\<close>, \<open>if\<close>,
  \<open>log\<close>, \<open>exp\<close>, \<open>and\<close>) the classifier returns the corresponding operator token
  (ADD, SUB, MUL, DIV, IF, LOG, EXP, AND), and the Context it leaves behind is the Context
  it was given, whatever that Context is: no entry is inserted, removed or overwritten.
\<close>

theorem translate_operator_words:
  "translate ctx ''+'' = Inr (Operator ADD, ctx)
   \<and> translate ctx ''-'' = Inr (Operator SUB, ctx)
   \<and> translate ctx ''*'' = Inr (Operator MUL, ctx)
   \<and> translate ctx ''/'' = Inr (Operator DIV, ctx)
   \<and> translate ctx ''if'' = Inr (Operator IF, ctx)
   \<and> translate ctx ''log'' = Inr (Operator LOG, ctx)
   \<and> translate ctx ''exp'' = Inr (Operator EXP, ctx)
   \<and> translate ctx ''and'' = Inr (Operator AND, ctx)"
proof (intro conjI)
  show "translate ctx ''+'' = Inr (Operator ADD, ctx)"
    by (simp add: translate_def)
  show "translate ctx ''-'' = Inr (Operator SUB, ctx)"
    by (simp add: translate_def)
  show "translate ctx ''*'' = Inr (Operator MUL, ctx)"
    by (simp add: translate_def)
  show "translate ctx ''/'' = Inr (Operator DIV, ctx)"
    by (simp add: translate_def)
  show "translate ctx ''if'' = Inr (Operator IF, ctx)"
    by (simp add: translate_def)
  show "translate ctx ''log'' = Inr (Operator LOG, ctx)"
    by (simp add: translate_def)
  show "translate ctx ''exp'' = Inr (Operator EXP, ctx)"
    by (simp add: translate_def)
  show "translate ctx ''and'' = Inr (Operator AND, ctx)"
    by (simp add: translate_def)
qed

theorem translate_operator_words_witness:
  "translate [''SCORE.INTER'' \<mapsto> Num 1] ''+'' = Inr (Operator ADD, [''SCORE.INTER'' \<mapsto> Num 1])
   \<and> translate [''SCORE.INTER'' \<mapsto> Num 1] ''and'' = Inr (Operator AND, [''SCORE.INTER'' \<mapsto> Num 1])"
  using translate_operator_words [of "[''SCORE.INTER'' \<mapsto> Num 1]"] by simp

subsection \<open>Numeric literals\<close>

text \<open>
  C4. Let a word be non-empty, no operator word and without the substrings \<open>SCORE\<close>,
  \<open>SITE\<close> and \<open>LIG\<close>, and let the floating-point conversion consume it entirely (nothing
  is left at the end pointer) without a conversion error. Then the classifier puts the
  converted value into the Context under the word's exact string, over any entry that was
  there under that key, and returns a VariableRef bound to that entry; a second occurrence
  of the same literal resolves to the same entry and leaves the Context as it is.
\<close>

theorem translate_literal_slot:
  assumes "s \<noteq> []"
    and "s \<notin> {''+'', ''-'', ''*'', ''/'', ''if'', ''log'', ''exp'', ''and''}"
    and "\<not> (sublist ''SCORE'' s \<or> sublist ''SITE'' s \<or> sublist ''LIG'' s)"
    and "strtod (c_str s) = (val, [], False)"
  shows "translate ctx s = Inr (VariableRef s, ctx(s \<mapsto> val))
    \<and> Get (ctx(s \<mapsto> val)) (VariableRef s) = Some val
    \<and> dom (ctx(s \<mapsto> val)) = insert s (dom ctx)
    \<and> translate (ctx(s \<mapsto> val)) s = Inr (VariableRef s, ctx(s \<mapsto> val))"
proof -
  have "translate c s = Inr (VariableRef s, c(s \<mapsto> val))" for c
    using translate_number [OF assms, of c] by simp
  from this [of ctx] this [of "ctx(s \<mapsto> val)"] show ?thesis
    by (simp add: Get_def)
qed

theorem translate_literal_slot_witness:
  "translate [''-2'' \<mapsto> Num 7] ''-2'' = Inr (VariableRef ''-2'', [''-2'' \<mapsto> Num (- 2)])
   \<and> Get [''-2'' \<mapsto> Num (- 2)] (VariableRef ''-2'') = Some (Num (- 2))
   \<and> translate [''-2'' \<mapsto> Num (- 2)] ''-2'' = Inr (VariableRef ''-2'', [''-2'' \<mapsto> Num (- 2)])"
  using translate_literal_slot [OF _ _ not_quantity(7) strtod_minus2, of "[''-2'' \<mapsto> Num 7]"]
  by simp

subsection \<open>Unrecognized and empty words\<close>

text \<open>
  For a word without a NUL byte the C string is the whole word, and the code's test is
  whether the conversion of the word leaves characters or reports an error: then the
  classifier throws.
\<close>

lemma c_str_without_NUL: "CHR 0x00 \<notin> set s \<Longrightarrow> c_str s = s"
  by (auto simp: c_str_def takeWhile_eq_all_conv)

lemma translate_unrecognized_without_NUL:
  assumes "s \<noteq> []"
    and "s \<notin> {''+'', ''-'', ''*'', ''/'', ''if'', ''log'', ''exp'', ''and''}"
    and "\<not> (sublist ''SCORE'' s \<or> sublist ''SITE'' s \<or> sublist ''LIG'' s)"
    and "CHR 0x00 \<notin> set s"
    and "strtod s = (val, rest, err)"
    and "rest \<noteq> [] \<or> err"
  shows "translate ctx s = Inl (UnrecognizedToken s)"
proof -
  have p: "strtod (c_str s) = (val, rest, err)"
    using assms(4,5) by (simp add: c_str_without_NUL)
  have "\<not> (\<not> err \<and> rest = [])"
    using assms(6) by blast
  then show ?thesis
    using translate_number [OF assms(1-3) p, of ctx] by simp
qed

lemma translate_unrecognized_examples:
  "translate ctx ''3.14x'' = Inl (RbtError ''Can't read 3.14x'')
   \<and> translate ctx ''foo'' = Inl (RbtError ''Can't read foo'')
   \<and> translate ctx ''1e999'' = Inl (RbtError ''Can't read 1e999'')"
  using translate_number [OF _ _ not_quantity(3) strtod_314x, of ctx]
    translate_number [OF _ _ not_quantity(4) strtod_foo, of ctx]
    translate_number [OF _ _ not_quantity(8) strtod_1e999, of ctx]
  by (simp add: UnrecognizedToken_def)

lemma strtod_314_NUL_x:
  "strtod (''3.14'' @ [CHR 0x00] @ ''x'') = (Num 3.14, [CHR 0x00, CHR ''x''], False)"
  "strtod (c_str (''3.14'' @ [CHR 0x00] @ ''x'')) = (Num 3.14, [], False)"
  by (simp_all add: strtod_defs)

lemma strtod_NUL_foo:
  "strtod (CHR 0x00 # ''foo'') = (Num 0, CHR 0x00 # ''foo'', False)"
  "strtod (c_str (CHR 0x00 # ''foo'')) = (Num 0, [], False)"
  by (simp_all add: strtod_defs)

lemma not_quantity_NUL:
  "\<not> (sublist ''SCORE'' (''3.14'' @ [CHR 0x00] @ ''x'')
      \<or> sublist ''SITE'' (''3.14'' @ [CHR 0x00] @ ''x'')
      \<or> sublist ''LIG'' (''3.14'' @ [CHR 0x00] @ ''x''))"
  "\<not> (sublist ''SCORE'' (CHR 0x00 # ''foo'') \<or> sublist ''SITE'' (CHR 0x00 # ''foo'')
      \<or> sublist ''LIG'' (CHR 0x00 # ''foo''))"
  by (simp_all add: npos_find_sublist [symmetric] npos_def)

text \<open>
  C5, where the code departs from it. The claim: every non-empty word that is no
  operator word, has none of the substrings \<open>SCORE\<close>, \<open>SITE\<close> and \<open>LIG\<close> and does not
  parse in full as a floating-point literal fails with UnrecognizedToken. The word of the
  six bytes \<open>3.14\<close>, NUL, \<open>x\<close> is such a word: it is not empty, no operator word, has none
  of the substrings, and the conversion of its characters stops at the NUL and leaves two
  of them. The code converts the C string of the word, which ends at the NUL, finds
  nothing left and no error, and returns a VariableRef: the whole word is the name of a
  Context entry that holds 3.14. In the same way the word NUL, \<open>foo\<close>, of which nothing
  at all is converted, gets a VariableRef and an entry that holds 0.
\<close>

theorem translate_accepts_word_with_NUL:
  "''3.14'' @ [CHR 0x00] @ ''x'' \<noteq> []
   \<and> ''3.14'' @ [CHR 0x00] @ ''x'' \<notin> {''+'', ''-'', ''*'', ''/'', ''if'', ''log'', ''exp'', ''and''}
   \<and> \<not> (sublist ''SCORE'' (''3.14'' @ [CHR 0x00] @ ''x'')
        \<or> sublist ''SITE'' (''3.14'' @ [CHR 0x00] @ ''x'')
        \<or> sublist ''LIG'' (''3.14'' @ [CHR 0x00] @ ''x''))
   \<and> strtod (''3.14'' @ [CHR 0x00] @ ''x'') = (Num 3.14, [CHR 0x00, CHR ''x''], False)
   \<and> translate ctx (''3.14'' @ [CHR 0x00] @ ''x'')
       = Inr (VariableRef (''3.14'' @ [CHR 0x00] @ ''x''),
              ctx(''3.14'' @ [CHR 0x00] @ ''x'' \<mapsto> Num 3.14))
   \<and> translate ctx (''3.14'' @ [CHR 0x00] @ ''x'')
       \<noteq> Inl (UnrecognizedToken (''3.14'' @ [CHR 0x00] @ ''x''))
   \<and> strtod (CHR 0x00 # ''foo'') = (Num 0, CHR 0x00 # ''foo'', False)
   \<and> translate ctx (CHR 0x00 # ''foo'')
       = Inr (VariableRef (CHR 0x00 # ''foo''), ctx(CHR 0x00 # ''foo'' \<mapsto> Num 0))"
proof -
  have w: "translate ctx (''3.14'' @ [CHR 0x00] @ ''x'')
       = Inr (VariableRef (''3.14'' @ [CHR 0x00] @ ''x''),
              ctx(''3.14'' @ [CHR 0x00] @ ''x'' \<mapsto> Num 3.14))"
    using translate_number [OF _ _ not_quantity_NUL(1) strtod_314_NUL_x(2), of ctx] by simp
  have f: "translate ctx (CHR 0x00 # ''foo'')
       = Inr (VariableRef (CHR 0x00 # ''foo''), ctx(CHR 0x00 # ''foo'' \<mapsto> Num 0))"
    using translate_number [OF _ _ not_quantity_NUL(2) strtod_NUL_foo(2), of ctx] by simp
  have n: "\<not> (sublist ''SCORE'' (''3.14'' @ [CHR 0x00] @ ''x'')
        \<or> sublist ''SITE'' (''3.14'' @ [CHR 0x00] @ ''x'')
        \<or> sublist ''LIG'' (''3.14'' @ [CHR 0x00] @ ''x''))"
    by (rule not_quantity_NUL(1))
  have o: "''3.14'' @ [CHR 0x00] @ ''x'' \<noteq> []
    \<and> ''3.14'' @ [CHR 0x00] @ ''x'' \<notin> {''+'', ''-'', ''*'', ''/'', ''if'', ''log'', ''exp'', ''and''}"
    by simp
  from w have e: "translate ctx (''3.14'' @ [CHR 0x00] @ ''x'')
       \<noteq> Inl (UnrecognizedToken (''3.14'' @ [CHR 0x00] @ ''x''))"
    by simp
  from o n strtod_314_NUL_x(1) w e strtod_NUL_foo(1) f show ?thesis
    by blast
qed

theorem translate_accepts_word_with_NUL_witness:
  "translate Map.empty (''3.14'' @ [CHR 0x00] @ ''x'')
     = Inr (VariableRef (''3.14'' @ [CHR 0x00] @ ''x''),
            [''3.14'' @ [CHR 0x00] @ ''x'' \<mapsto> Num 3.14])
   \<and> translate Map.empty (CHR 0x00 # ''foo'')
     = Inr (VariableRef (CHR 0x00 # ''foo''), [CHR 0x00 # ''foo'' \<mapsto> Num 0])"
  using translate_accepts_word_with_NUL [of Map.empty] by simp

text \<open>
  C6. Classifying the empty word fails with EmptyToken. The constructor reads the first
  word into the empty buffer; when the stream has no word (it is not good, or only white
  space is left), the buffered word stays empty, and the first \<^verbatim>\<open>Current()\<close> fails
  with EmptyToken.
\<close>

theorem empty_stream_EmptyToken:
  assumes "\<not> good fn \<or> (\<forall>c\<in>set (unread fn). isspace c)"
  shows "translate co [] = Inl EmptyToken
    \<and> strtok (RbtStringTokenIter_new fn co) = []
    \<and> Current (RbtStringTokenIter_new fn co) = Inl EmptyToken"
proof -
  have w: "snd (read_word fn []) = []"
    by (rule read_word_none [OF assms])
  then have s: "strtok (RbtStringTokenIter_new fn co) = []"
    by (cases "read_word fn []") (simp add: RbtStringTokenIter_new_def)
  have c: "contextp (RbtStringTokenIter_new fn co) = co"
    by (cases "read_word fn []") (simp add: RbtStringTokenIter_new_def)
  show ?thesis
    by (simp add: s c Current_def translate_empty)
qed

theorem empty_stream_EmptyToken_witness:
  "Current (RbtStringTokenIter_new (istringstream []) Map.empty)
     = Inl (RbtError ''Missing token, can't translate the expression'')
   \<and> Current (RbtStringTokenIter_new (istringstream ''  '') Map.empty)
     = Inl (RbtError ''Missing token, can't translate the expression'')
   \<and> Current (RbtStringTokenIter_new \<lparr>unread = [], eofbit = True, failbit = False\<rparr> Map.empty)
     = Inl (RbtError ''Missing token, can't translate the expression'')"
  using empty_stream_EmptyToken [of "istringstream []" Map.empty]
    empty_stream_EmptyToken [of "istringstream ''  ''" Map.empty]
    empty_stream_EmptyToken [of "\<lparr>unread = [], eofbit = True, failbit = False\<rparr>" Map.empty]
  by (simp add: istringstream_def isspace_def EmptyToken_def good_def)

subsection \<open>Repeated calls of Current\<close>

text \<open>
  C7. Calling \<^verbatim>\<open>Current()\<close> twice with no \<^verbatim>\<open>Next\<close> in between is idempotent: when the
  first call returns a token and leaves the iterator in a state, the second call returns
  the same token (for a variable or a literal, the handle of the same Context entry) and
  leaves the same state, so the Context after the second call is the Context after the
  first; it has not grown and no entry has changed.
\<close>

theorem Current_idempotent:
  assumes "Current it = Inr (t, it')"
  shows "Current it' = Inr (t, it')
    \<and> contextp (exec CallCurrent it') = contextp it'
    \<and> dom (contextp (run [CallCurrent, CallCurrent] it)) = dom (contextp (run [CallCurrent] it))"
proof -
  have again: "Current it' = Inr (t, it')"
    by (rule Current_twice [OF assms])
  have "exec CallCurrent it = it'"
    using assms by (simp add: exec_def)
  moreover have "exec CallCurrent it' = it'"
    using again by (simp add: exec_def)
  ultimately show ?thesis
    using again by simp
qed

lemma Current_new_314_LOG:
  "Current (RbtStringTokenIter_new (istringstream ''3.14 LOG'') Map.empty) =
     Inr (VariableRef ''3.14'',
          \<lparr>current = Some (VariableRef ''3.14''),
           filep = \<lparr>unread = '' LOG'', eofbit = False, failbit = False\<rparr>,
           strtok = ''3.14'', contextp = [''3.14'' \<mapsto> Num 3.14]\<rparr>)"
  by (simp add: new_314_LOG Current_unfold translate_314)

theorem Current_idempotent_witness:
  "Current \<lparr>current = Some (VariableRef ''3.14''),
            filep = \<lparr>unread = '' LOG'', eofbit = False, failbit = False\<rparr>,
            strtok = ''3.14'', contextp = [''3.14'' \<mapsto> Num 3.14]\<rparr>
     = Inr (VariableRef ''3.14'',
          \<lparr>current = Some (VariableRef ''3.14''),
           filep = \<lparr>unread = '' LOG'', eofbit = False, failbit = False\<rparr>,
           strtok = ''3.14'', contextp = [''3.14'' \<mapsto> Num 3.14]\<rparr>)"
  using Current_idempotent [OF Current_new_314_LOG] by simp

subsection \<open>The Context only grows\<close>

text \<open>
  C8. During tokenization the Context only grows. For every sequence of calls of
  \<^verbatim>\<open>Current()\<close> and \<^verbatim>\<open>Next\<close>: no entry is removed (every name of the Context before
  is a name of the Context after); one call adds at most one entry, and only under the
  buffered word; the names of the Context after the sequence are the names before
  together with the variable names and literal strings that the calls of \<^verbatim>\<open>Current\<close>
  returned, so its size is at most the size before plus the number of distinct such
  names.
\<close>

theorem Context_only_grows:
  "dom (contextp it) \<subseteq> dom (contextp (run cs it))
   \<and> dom (contextp (exec c it)) \<subseteq> insert (strtok it) (dom (contextp it))
   \<and> card (dom (contextp (exec c it)) - dom (contextp it)) \<le> 1
   \<and> dom (contextp (run cs it)) = dom (contextp it) \<union> set (names_seen (trace cs it))
   \<and> card (dom (contextp (run cs it)))
       \<le> card (dom (contextp it)) + card (set (names_seen (trace cs it)))"
proof -
  have names: "dom (contextp (run cs it)) = dom (contextp it) \<union> set (names_seen (trace cs it))"
    by (rule run_dom)
  have step: "dom (contextp (exec c it)) \<subseteq> insert (strtok it) (dom (contextp it))"
    using exec_dom_step [of it c] by blast
  then have "dom (contextp (exec c it)) - dom (contextp it) \<subseteq> {strtok it}"
    by blast
  then have "card (dom (contextp (exec c it)) - dom (contextp it)) \<le> card {strtok it}"
    by (intro card_mono) simp_all
  then have one: "card (dom (contextp (exec c it)) - dom (contextp it)) \<le> 1"
    by simp
  have size: "card (dom (contextp (run cs it)))
       \<le> card (dom (contextp it)) + card (set (names_seen (trace cs it)))"
    unfolding names by (rule card_Un_le)
  from names step one size show ?thesis
    by blast
qed

theorem Context_only_grows_witness:
  "dom [''x'' \<mapsto> Num 1] \<subseteq> dom (contextp (run [CallCurrent, CallNext Map.empty, CallCurrent]
       (RbtStringTokenIter_new (istringstream ''3.14 LOG'') [''x'' \<mapsto> Num 1])))
   \<and> card (dom (contextp (run [CallCurrent, CallNext Map.empty, CallCurrent]
       (RbtStringTokenIter_new (istringstream ''3.14 LOG'') [''x'' \<mapsto> Num 1])))) \<le> 2"
proof -
  let ?it = "RbtStringTokenIter_new (istringstream ''3.14 LOG'') [''x'' \<mapsto> Num 1]"
  let ?cs = "[CallCurrent, CallNext Map.empty, CallCurrent]"
  have t: "names_seen (trace ?cs ?it) = [''3.14'']"
    by (simp add: new_314_LOG iter_defs Current_unfold translate_314 translate_LOG)
  have c: "contextp ?it = [''x'' \<mapsto> Num 1]"
    by (simp add: new_314_LOG)
  from Context_only_grows [of ?it ?cs CallCurrent]
  have "dom (contextp ?it) \<subseteq> dom (contextp (run ?cs ?it))"
    and "card (dom (contextp (run ?cs ?it)))
          \<le> card (dom (contextp ?it)) + card (set (names_seen (trace ?cs ?it)))"
    by blast+
  then have "dom [''x'' \<mapsto> Num 1] \<subseteq> dom (contextp (run ?cs ?it))"
    and "card (dom (contextp (run ?cs ?it)))
          \<le> card (dom [''x'' \<mapsto> Num (1::rat)]) + card (set [''3.14''])"
    by (simp_all only: t c)
  then show ?thesis
    by simp
qed

subsection \<open>Next\<close>

text \<open>
  C10. \<^verbatim>\<open>Next\<close> only reads the next word into the buffer: the Context is the same
  after the call, the token cached by the last \<^verbatim>\<open>Current()\<close> is the same, the result
  does not depend on the \<^verbatim>\<open>RbtContextPtr\<close> argument, and stream and buffered word
  after the call are what reading one word from the stream gives. When the stream is good
  and holds, after white space, a word that ends at white space or at the end of the
  stream, that word is the buffered word afterwards.
\<close>

theorem Next_frame:
  "contextp (Next co it) = contextp it
   \<and> current (Next co it) = current it
   \<and> Next co it = Next co' it
   \<and> (filep (Next co it), strtok (Next co it)) = read_word (filep it) (strtok it)
   \<and> (good (filep it) \<and> unread (filep it) = sp @ w @ rest \<and> (\<forall>c\<in>set sp. isspace c)
        \<and> w \<noteq> [] \<and> (\<forall>c\<in>set w. \<not> isspace c) \<and> (rest = [] \<or> isspace (hd rest))
      \<longrightarrow> strtok (Next co it) = w \<and> unread (filep (Next co it)) = rest)"
proof -
  obtain fn' w' where rw: "read_word (filep it) (strtok it) = (fn', w')"
    by (cases "read_word (filep it) (strtok it)") auto
  have frame: "contextp (Next co it) = contextp it" "current (Next co it) = current it"
    "Next co it = Next co' it"
    "(filep (Next co it), strtok (Next co it)) = read_word (filep it) (strtok it)"
    by (simp_all add: Next_def rw)
  have word: "strtok (Next co it) = w \<and> unread (filep (Next co it)) = rest"
    if "good (filep it)" "unread (filep it) = sp @ w @ rest" "\<forall>c\<in>set sp. isspace c"
      "w \<noteq> []" "\<forall>c\<in>set w. \<not> isspace c" "rest = [] \<or> isspace (hd rest)"
    using read_word_next [OF that, of "strtok it"] by (simp add: Next_def)
  from frame word show ?thesis
    by blast
qed

theorem Next_frame_witness:
  "strtok (Next [''x'' \<mapsto> Num 1]
      \<lparr>current = Some (VariableRef ''3.14''),
       filep = \<lparr>unread = '' LOG'', eofbit = False, failbit = False\<rparr>,
       strtok = ''3.14'', contextp = [''3.14'' \<mapsto> Num 3.14]\<rparr>) = ''LOG''
   \<and> contextp (Next [''x'' \<mapsto> Num 1]
      \<lparr>current = Some (VariableRef ''3.14''),
       filep = \<lparr>unread = '' LOG'', eofbit = False, failbit = False\<rparr>,
       strtok = ''3.14'', contextp = [''3.14'' \<mapsto> Num 3.14]\<rparr>) = [''3.14'' \<mapsto> Num 3.14]
   \<and> current (Next [''x'' \<mapsto> Num 1]
      \<lparr>current = Some (VariableRef ''3.14''),
       filep = \<lparr>unread = '' LOG'', eofbit = False, failbit = False\<rparr>,
       strtok = ''3.14'', contextp = [''3.14'' \<mapsto> Num 3.14]\<rparr>) = Some (VariableRef ''3.14'')"
  using Next_frame [of "[''x'' \<mapsto> Num 1]"
      "\<lparr>current = Some (VariableRef ''3.14''),
       filep = \<lparr>unread = '' LOG'', eofbit = False, failbit = False\<rparr>,
       strtok = ''3.14'', contextp = [''3.14'' \<mapsto> Num 3.14]\<rparr>"
      "[''x'' \<mapsto> Num 1]" "'' ''" "''LOG''" "[]"]
  by (simp add: good_def isspace_def)

subsection \<open>Non-finite spellings\<close>

text \<open>
  C9. The numeric branch accepts every word that the string-to-double conversion
  consumes in full without error, also one that spells no finite number. The conversion
  consumes \<open>inf\<close> and \<open>nan\<close> in full and returns an infinity and a NaN; for these words
  the classifier does not fail: it makes a Context entry named by the word that holds
  the non-finite value, and returns a VariableRef bound to it.
\<close>

theorem translate_nonfinite:
  "strtod (c_str ''inf'') = (PlusInf, [], False)
   \<and> translate ctx ''inf'' = Inr (VariableRef ''inf'', ctx(''inf'' \<mapsto> PlusInf))
   \<and> strtod (c_str ''nan'') = (NaN, [], False)
   \<and> translate ctx ''nan'' = Inr (VariableRef ''nan'', ctx(''nan'' \<mapsto> NaN))
   \<and> (s \<noteq> [] \<and> s \<notin> {''+'', ''-'', ''*'', ''/'', ''if'', ''log'', ''exp'', ''and''}
        \<and> \<not> (sublist ''SCORE'' s \<or> sublist ''SITE'' s \<or> sublist ''LIG'' s)
        \<and> strtod (c_str s) = (val, [], False) \<and> val \<in> {PlusInf, MinusInf, NaN}
      \<longrightarrow> translate ctx s = Inr (VariableRef s, ctx(s \<mapsto> val)))"
proof -
  have inf: "translate ctx ''inf'' = Inr (VariableRef ''inf'', ctx(''inf'' \<mapsto> PlusInf))"
    using translate_number [OF _ _ not_quantity(5) strtod_inf, of ctx] by simp
  have nan: "translate ctx ''nan'' = Inr (VariableRef ''nan'', ctx(''nan'' \<mapsto> NaN))"
    using translate_number [OF _ _ not_quantity(6) strtod_nan, of ctx] by simp
  have gen: "translate ctx s = Inr (VariableRef s, ctx(s \<mapsto> val))"
    if "s \<noteq> []" "s \<notin> {''+'', ''-'', ''*'', ''/'', ''if'', ''log'', ''exp'', ''and''}"
      "\<not> (sublist ''SCORE'' s \<or> sublist ''SITE'' s \<or> sublist ''LIG'' s)"
      "strtod (c_str s) = (val, [], False)"
    using translate_number [OF that, of ctx] by simp
  from inf nan gen strtod_inf strtod_nan show ?thesis
    by blast
qed

lemma strtod_minus_infinity: "strtod (c_str ''-Infinity'') = (MinusInf, [], False)"
  by (simp add: strtod_defs)

lemma not_quantity_minus_infinity:
  "\<not> (sublist ''SCORE'' ''-Infinity'' \<or> sublist ''SITE'' ''-Infinity''
      \<or> sublist ''LIG'' ''-Infinity'')"
  by (simp add: npos_find_sublist [symmetric] npos_def)

theorem translate_nonfinite_witness:
  "translate Map.empty ''inf'' = Inr (VariableRef ''inf'', [''inf'' \<mapsto> PlusInf])
   \<and> translate Map.empty ''nan'' = Inr (VariableRef ''nan'', [''nan'' \<mapsto> NaN])
   \<and> translate Map.empty ''-Infinity'' = Inr (VariableRef ''-Infinity'', [''-Infinity'' \<mapsto> MinusInf])"
  using translate_nonfinite [of Map.empty "''-Infinity''" MinusInf]
    strtod_minus_infinity not_quantity_minus_infinity
  by simp

end
